theory Spec2Isabelle
  imports Complex_Main "HOL-Library.Stream" "HOL-Library.Log_Nat"
begin

section \<open>Data model of simulator.cpp\<close>

text \<open>
  \<^verbatim>\<open>struct DoorState { bool selected = false; bool hasCar = false; bool open = false; };\<close>
  The third field is written \<open>isOpen\<close>: \<open>open\<close> is a keyword of the theory language.
\<close>

record DoorState =
  selected :: bool
  hasCar :: bool
  isOpen :: bool

type_synonym Board = "DoorState list"

datatype LogLevel = DEBUG | INFO | WARN

text \<open>The enumerators compare by their position in the enum.\<close>

primrec levelRank :: "LogLevel \<Rightarrow> nat" where
  "levelRank DEBUG = 0"
| "levelRank INFO = 1"
| "levelRank WARN = 2"

record Logger =
  logLevel :: LogLevel

text \<open>
  The exceptions of the program: \<open>std::invalid_argument\<close> (thrown by \<open>chooseRandomIndex\<close>,
  by \<open>parseArguments\<close> and by \<open>std::stoi\<close>) and \<open>std::out_of_range\<close> (thrown by
  \<open>std::stoi\<close>), each with its \<open>what()\<close> text.
\<close>

datatype exn = invalid_argument string | out_of_range string

primrec what :: "exn \<Rightarrow> string" where
  "what (invalid_argument m) = m"
| "what (out_of_range m) = m"

text \<open>
  The value of \<open>static_cast<double>(winCount) / simulationsNumber\<close>: an IEEE 754 binary64
  number. Only the values a quotient of two \<open>int\<close>s can take are needed: a finite value
  (an exact rational), negative zero, the infinities and NaN.
\<close>

datatype double = Finite rat | NegZero | PosInf | NegInf | NaN

text \<open>
  A line handed to the logger. \<open>std::format(fmt, args...)\<close> is kept as the format string
  with its arguments; the text it prints is not computed.
\<close>

datatype fmtArg = IntArg int | DoubleArg double

datatype message = Message string "fmtArg list"

section \<open>Effects: random draws, output, exceptions\<close>

text \<open>
  The member functions of \<open>Simulator\<close> draw from the shared generator \<open>gen\<close>, write to
  \<open>std::cout\<close> through the logger and may throw. A computation is the tree of these
  effects: \<open>GetRandom max k\<close> is the call \<open>getRandom(max)\<close> whose result \<open>r\<close> is passed
  to the rest \<open>k r\<close> of the computation, \<open>Print m p\<close> writes the line \<open>m\<close> and goes on as
  \<open>p\<close>, \<open>Throw e\<close> raises \<open>e\<close>, \<open>Return x\<close> returns \<open>x\<close>.
\<close>

datatype 'a prog =
    Return 'a
  | Throw exn
  | GetRandom nat "nat \<Rightarrow> 'a prog"
  | Print message "'a prog"

text \<open>Sequencing: \<open>bindP p f\<close> runs \<open>p\<close> and then \<open>f\<close> on its result; an exception of \<open>p\<close> skips \<open>f\<close>.\<close>

primrec bindP :: "'a prog \<Rightarrow> ('a \<Rightarrow> 'b prog) \<Rightarrow> 'b prog" where
  "bindP (Return x) f = f x"
| "bindP (Throw e) f = Throw e"
| "bindP (GetRandom m k) f = GetRandom m (\<lambda>r. bindP (k r) f)"
| "bindP (Print s p) f = Print s (bindP p f)"

subsection \<open>Running a computation on a generator\<close>

text \<open>
  \<open>std::mt19937\<close> and \<open>std::uniform_int_distribution<int>\<close> are library code. The
  generator is taken to be the infinite sequence of raw numbers it will produce, and
  \<open>dist(gen)\<close> for \<open>dist(0, max)\<close> consumes the next one and reduces it into
  \<open>[0, max]\<close>. Every sequence of in-range results is the behaviour of some generator.
\<close>

type_synonym mt19937 = "nat stream"

definition uniform_int_distribution :: "nat \<Rightarrow> mt19937 \<Rightarrow> nat \<times> mt19937" where
  "uniform_int_distribution hi g = (shd g mod Suc hi, stl g)"

text \<open>
  \<open>run p g\<close> executes \<open>p\<close> from generator state \<open>g\<close>: the lines written to \<open>std::cout\<close>,
  and either the exception that ended the run or the result with the generator state left
  behind.
\<close>

primrec run :: "'a prog \<Rightarrow> mt19937 \<Rightarrow> message list \<times> (exn + 'a \<times> mt19937)" where
  "run (Return x) g = ([], Inr (x, g))"
| "run (Throw e) g = ([], Inl e)"
| "run (GetRandom m k) g =
     (case uniform_int_distribution m g of (r, g') \<Rightarrow> run (k r) g')"
| "run (Print s p) g = (case run p g of (out, res) \<Rightarrow> (s # out, res))"

subsection \<open>The distribution of a computation\<close>

text \<open>
  \<open>expect f p\<close> is the expected value of \<open>f\<close> on the result of \<open>p\<close> when every call
  \<open>getRandom(max)\<close> returns each of \<open>0, \<dots>, max\<close> with probability \<open>1 / (max + 1)\<close>,
  independently of the earlier draws; a run that throws contributes nothing.
  \<open>prob P p\<close> is the probability that \<open>p\<close> returns a value satisfying \<open>P\<close>.
\<close>

primrec expect :: "('a \<Rightarrow> real) \<Rightarrow> 'a prog \<Rightarrow> real" where
  "expect f (Return x) = f x"
| "expect f (Throw e) = 0"
| "expect f (GetRandom m k) = (\<Sum>r\<leftarrow>[0..<Suc m]. expect f (k r)) / real (Suc m)"
| "expect f (Print s p) = expect f p"

definition prob :: "('a \<Rightarrow> bool) \<Rightarrow> 'a prog \<Rightarrow> real" where
  "prob P p = expect (\<lambda>x. if P x then 1 else 0) p"

section \<open>The logger\<close>

text \<open>
  \<^verbatim>\<open>void log(const std::string& message, LogLevel level) const {
    if (level >= logLevel) { std::cout << message << std::endl; } }\<close>
\<close>

definition log :: "Logger \<Rightarrow> message \<Rightarrow> LogLevel \<Rightarrow> unit prog" where
  "log logger msg level =
     (if levelRank level \<ge> levelRank (logLevel logger) then Print msg (Return ()) else Return ())"

definition debug :: "Logger \<Rightarrow> message \<Rightarrow> unit prog" where
  "debug logger msg = log logger msg DEBUG"

definition info :: "Logger \<Rightarrow> message \<Rightarrow> unit prog" where
  "info logger msg = log logger msg INFO"

section \<open>The simulator\<close>

definition DOORS_NUMBER :: nat where
  "DOORS_NUMBER = 3"

text \<open>
  \<open>printBoard\<close>: one cell per door, \<open>C\<close> for the car, a blank for an open door, \<open>X\<close>
  otherwise, in braces when selected and in brackets when not, each followed by a space.
\<close>

definition doorCell :: "DoorState \<Rightarrow> string" where
  "doorCell door =
     (let symbol = (if hasCar door then ''C'' else (if isOpen door then '' '' else ''X''));
          left = (if selected door then ''{'' else ''['');
          right = (if selected door then ''}'' else '']'')
      in left @ symbol @ right @ '' '')"

definition printBoard :: "Logger \<Rightarrow> Board \<Rightarrow> unit prog" where
  "printBoard logger board = debug logger (Message (concat (map doorCell board)) [])"

text \<open>
  \<^verbatim>\<open>int getRandom(int max) { std::uniform_int_distribution<int> dist(0, max); return dist(gen); }\<close>
  Every call in the program passes the size of a non-empty vector minus one, so \<open>max\<close>
  (here \<open>hi\<close>) and the result are natural numbers.
\<close>

definition getRandom :: "nat \<Rightarrow> nat prog" where
  "getRandom hi = GetRandom hi Return"

text \<open>
  The loop of \<open>chooseRandomIndex\<close>: \<open>i\<close> runs from its start value to \<open>board.size()\<close>
  and every index whose door satisfies the condition is pushed to the back of \<open>indices\<close>.
\<close>

function collectIndices :: "Board \<Rightarrow> (DoorState \<Rightarrow> bool) \<Rightarrow> nat \<Rightarrow> nat list \<Rightarrow> nat list" where
  "collectIndices board condition i indices =
     (if i < length board
      then collectIndices board condition (i + 1)
             (if condition (board ! i) then indices @ [i] else indices)
      else indices)"
  by pat_completeness auto
termination
  by (relation "measure (\<lambda>(board, condition, i, indices). length board - i)") auto

declare collectIndices.simps [simp del]

definition chooseRandomIndex :: "Board \<Rightarrow> (DoorState \<Rightarrow> bool) \<Rightarrow> nat prog" where
  "chooseRandomIndex board condition =
     (let indices = collectIndices board condition 0 []
      in if indices = []
         then Throw (invalid_argument ''No suitable indices available'')
         else bindP (getRandom (length indices - 1)) (\<lambda>r. Return (indices ! r)))"

text \<open>
  \<open>simulateSingleGame\<close>. Besides the \<open>bool\<close> of the source the model returns the history of
  the board: its value after the car is placed, after the player's choice is marked,
  after the host's door is opened and, when the player changes the decision, after the
  two assignments of the reselection. The source keeps only the current board; the
  history is there so that the intermediate boards can be talked about.
\<close>

definition simulateSingleGame :: "Logger \<Rightarrow> bool \<Rightarrow> (bool \<times> Board list) prog" where
  "simulateSingleGame logger changePlayerDecision =
     (let board0 = replicate DOORS_NUMBER \<lparr>selected = False, hasCar = False, isOpen = False\<rparr> in
      bindP (getRandom (length board0 - 1)) (\<lambda>carIndex.
      let board1 = board0[carIndex := (board0 ! carIndex)\<lparr>hasCar := True\<rparr>] in
      bindP (debug logger (Message ''Car is at door {}'' [IntArg (int carIndex + 1)])) (\<lambda>_.
      bindP (getRandom (length board1 - 1)) (\<lambda>playerChoiceIndex.
      let board2 = board1[playerChoiceIndex := (board1 ! playerChoiceIndex)\<lparr>selected := True\<rparr>] in
      bindP (debug logger (Message ''Player chooses door {}'' [IntArg (int playerChoiceIndex + 1)])) (\<lambda>_.
      bindP (debug logger (Message ''Initial board:'' [])) (\<lambda>_.
      bindP (printBoard logger board2) (\<lambda>_.
      bindP (chooseRandomIndex board2 (\<lambda>door. \<not> selected door \<and> \<not> hasCar door)) (\<lambda>openedDoorIndex.
      let board3 = board2[openedDoorIndex := (board2 ! openedDoorIndex)\<lparr>isOpen := True\<rparr>] in
      bindP (debug logger (Message ''Doors {} opened'' [IntArg (int openedDoorIndex + 1)])) (\<lambda>_.
      bindP (debug logger (Message ''Current board:'' [])) (\<lambda>_.
      bindP (printBoard logger board3) (\<lambda>_.
      if changePlayerDecision then
        bindP (chooseRandomIndex board3 (\<lambda>door. \<not> selected door \<and> \<not> isOpen door)) (\<lambda>newChoiceIndex.
        bindP (debug logger (Message ''Player changes choice to door {}'' [IntArg (int newChoiceIndex + 1)])) (\<lambda>_.
        let board3' = board3[playerChoiceIndex := (board3 ! playerChoiceIndex)\<lparr>selected := False\<rparr>];
            board4 = board3'[newChoiceIndex := (board3' ! newChoiceIndex)\<lparr>selected := True\<rparr>] in
        bindP (debug logger (Message ''Board after player changes choice:'' [])) (\<lambda>_.
        bindP (printBoard logger board4) (\<lambda>_.
        Return (hasCar (board4 ! newChoiceIndex), [board1, board2, board3, board4])))))
      else
        Return (hasCar (board3 ! playerChoiceIndex), [board1, board2, board3]))))))))))))"

subsection \<open>The quotient of two ints as a double\<close>

text \<open>
  \<open>roundTiesToEven\<close> rounds a rational to the nearest integer, a tie to the even one.
  \<open>ilog2 x\<close> is the exponent \<open>e\<close> with \<open>2^e \<le> x < 2^(e+1)\<close> of a positive rational.
  \<open>round64 x\<close> is the binary64 number nearest to \<open>x\<close> (53 significant bits, ties to
  even) for \<open>x\<close> in the normal range, where every quotient of two non-zero 32-bit
  integers lies.
\<close>

definition roundTiesToEven :: "rat \<Rightarrow> int" where
  "roundTiesToEven m =
     (let f = \<lfloor>m\<rfloor>; d = m - of_int f
      in if d < 1 / 2 then f else if 1 / 2 < d then f + 1 else if even f then f else f + 1)"

definition ilog2 :: "rat \<Rightarrow> int" where
  "ilog2 x =
     (case quotient_of x of (a, b) \<Rightarrow>
        let k = bitlen a - bitlen b in if 2 powi k \<le> x then k else k - 1)"

definition round64 :: "rat \<Rightarrow> rat" where
  "round64 x =
     (if x = 0 then 0
      else let e = ilog2 \<bar>x\<bar>;
               m = \<bar>x\<bar> * 2 powi (52 - e)
           in sgn x * of_int (roundTiesToEven m) * 2 powi (e - 52))"

text \<open>
  \<open>static_cast<double>(a) / b\<close> for \<open>int\<close>s \<open>a\<close> and \<open>b\<close>: both convert to double
  exactly, and the IEEE division gives NaN for \<open>0 / 0\<close>, an infinity for a non-zero
  numerator over zero, a signed zero for zero over a non-zero denominator, and the
  rounded quotient otherwise.
\<close>

definition divDouble :: "int \<Rightarrow> int \<Rightarrow> double" where
  "divDouble a b =
     (if b = 0 then (if a = 0 then NaN else if 0 < a then PosInf else NegInf)
      else if a = 0 then (if b < 0 then NegZero else Finite 0)
      else Finite (round64 (of_int a / of_int b)))"

subsection \<open>Batches\<close>

text \<open>
  The loop of \<open>runSimulation\<close>:
  \<^verbatim>\<open>for (int i = 0; i < simulationsNumber; ++i) { winCount += simulateSingleGame(changePlayerDecision); }\<close>
  \<open>i\<close> and \<open>winCount\<close> never exceed \<open>simulationsNumber\<close>, so the \<open>int\<close> arithmetic
  does not overflow and is modelled on the integers.
\<close>

function runLoop :: "Logger \<Rightarrow> int \<Rightarrow> bool \<Rightarrow> int \<Rightarrow> int \<Rightarrow> int prog" where
  "runLoop logger simulationsNumber changePlayerDecision i winCount =
     (if i < simulationsNumber
      then bindP (simulateSingleGame logger changePlayerDecision) (\<lambda>game.
             runLoop logger simulationsNumber changePlayerDecision (i + 1)
               (winCount + (if fst game then 1 else 0)))
      else Return winCount)"
  by pat_completeness auto
termination
  by (relation "measure (\<lambda>(logger, simulationsNumber, changePlayerDecision, i, winCount).
                  nat (simulationsNumber - i))") auto

declare runLoop.simps [simp del]

text \<open>
  \<open>runSimulation\<close> returns nothing in the source; the model returns the locals
  \<open>winCount\<close> and \<open>winRatio\<close> that the summary line reports.
\<close>

definition runSimulation :: "Logger \<Rightarrow> int \<Rightarrow> bool \<Rightarrow> (int \<times> double) prog" where
  "runSimulation logger simulationsNumber changePlayerDecision =
     bindP (runLoop logger simulationsNumber changePlayerDecision 0 0) (\<lambda>winCount.
     let winRatio = divDouble winCount simulationsNumber in
     bindP (info logger (Message ''Simulations: {}, Wins: {}, Win Ratio: {:.2f}''
                           [IntArg simulationsNumber, IntArg winCount, DoubleArg winRatio])) (\<lambda>_.
     Return (winCount, winRatio)))"

definition simulate :: "Logger \<Rightarrow> int \<Rightarrow> unit prog" where
  "simulate logger simulationsNumber =
     bindP (info logger (Message ''Running simulation where the player does not change the door:'' [])) (\<lambda>_.
     bindP (runSimulation logger simulationsNumber False) (\<lambda>_.
     bindP (info logger (Message ''Running simulation where the player changes the door:'' [])) (\<lambda>_.
     bindP (runSimulation logger simulationsNumber True) (\<lambda>_.
     Return ()))))"

section \<open>Command line\<close>

text \<open>
  \<open>std::stoi\<close> is library code, modelled after the C++ standard (\<open>strtol\<close> in base 10):
  leading white space is skipped, an optional sign and then the longest run of decimal
  digits are read, and what follows is ignored. Without a digit it throws
  \<open>std::invalid_argument\<close>; a value outside \<open>int\<close> throws \<open>std::out_of_range\<close>. The
  \<open>what()\<close> text of both is the implementation's (here that of libstdc++).
\<close>

definition isspace :: "char \<Rightarrow> bool" where
  "isspace c = (of_char c \<in> set [32, 9, 10, 11, 12, 13 :: nat])"

definition isdigit :: "char \<Rightarrow> bool" where
  "isdigit c = (48 \<le> (of_char c :: nat) \<and> (of_char c :: nat) \<le> 57)"

definition digitsValue :: "string \<Rightarrow> int" where
  "digitsValue ds = foldl (\<lambda>acc c. 10 * acc + (int (of_char c) - 48)) 0 ds"

definition INT_MIN :: int where
  "INT_MIN = - 2147483648"

definition INT_MAX :: int where
  "INT_MAX = 2147483647"

definition stoi :: "string \<Rightarrow> exn + int" where
  "stoi str =
     (let s1 = dropWhile isspace str;
          negative = (s1 \<noteq> [] \<and> hd s1 = CHR ''-'');
          s2 = (if s1 \<noteq> [] \<and> (hd s1 = CHR ''-'' \<or> hd s1 = CHR ''+'') then tl s1 else s1);
          ds = takeWhile isdigit s2
      in if ds = [] then Inl (invalid_argument ''stoi'')
         else let v = (if negative then - digitsValue ds else digitsValue ds)
              in if v < INT_MIN \<or> INT_MAX < v then Inl (out_of_range ''stoi'') else Inr v)"

text \<open>
  The loop of \<open>parseArguments\<close> over \<open>argv[i]\<close>, \<open>i\<close> from 1 while \<open>i < argc\<close>; \<open>argc\<close> is
  the length of \<open>argv\<close>. The option \<open>--simulations\<close> consumes the next token
  (\<open>argv[++i]\<close>).
\<close>

function parseLoop :: "string list \<Rightarrow> nat \<Rightarrow> int \<Rightarrow> LogLevel \<Rightarrow> exn + int \<times> LogLevel" where
  "parseLoop argv i simulations level =
     (if i < length argv
      then let arg = argv ! i in
           if arg = ''--simulations'' \<and> i + 1 < length argv
           then (case stoi (argv ! (i + 1)) of
                   Inl e \<Rightarrow> Inl e
                 | Inr v \<Rightarrow> parseLoop argv (i + 1 + 1) v level)
           else if arg = ''--verbose''
           then parseLoop argv (i + 1) simulations DEBUG
           else Inl (invalid_argument (''Invalid argument: '' @ arg))
      else Inr (simulations, level))"
  by pat_completeness auto
termination
  by (relation "measure (\<lambda>(argv, i, simulations, level). length argv - i)") auto

declare parseLoop.simps [simp del]

definition parseArguments :: "string list \<Rightarrow> exn + int \<times> LogLevel" where
  "parseArguments argv = parseLoop argv 1 10000 INFO"

text \<open>
  \<open>main\<close>: what the process leaves behind, given its arguments and the state the
  generator was seeded to. \<open>argv[0]\<close> is read only on the error path; with an empty
  \<open>argv\<close> no argument can be rejected.
\<close>

record Process =
  exitCode :: int
  stdout :: "message list"
  stderr :: "string list"

definition EXIT_SUCCESS :: int where
  "EXIT_SUCCESS = 0"

definition EXIT_FAILURE :: int where
  "EXIT_FAILURE = 1"

definition errorLines :: "string list \<Rightarrow> exn \<Rightarrow> string list" where
  "errorLines argv e =
     [''Error: '' @ what e,
      ''Usage: '' @ (case argv of [] \<Rightarrow> [] | a0 # _ \<Rightarrow> a0) @ '' [--simulations <number>] [--verbose]'']"

definition main :: "string list \<Rightarrow> mt19937 \<Rightarrow> Process" where
  "main argv seeded =
     (case parseArguments argv of
        Inl e \<Rightarrow> \<lparr>exitCode = EXIT_FAILURE, stdout = [], stderr = errorLines argv e\<rparr>
      | Inr (simulations, level) \<Rightarrow>
          let logger = \<lparr>logLevel = level\<rparr> in
          (case run (simulate logger simulations) seeded of
             (out, Inl e) \<Rightarrow> \<lparr>exitCode = EXIT_FAILURE, stdout = out, stderr = errorLines argv e\<rparr>
           | (out, Inr _) \<Rightarrow> \<lparr>exitCode = EXIT_SUCCESS, stdout = out, stderr = []\<rparr>))"

section \<open>Vocabulary of the properties\<close>

text \<open>
  \<open>draws p g\<close> lists the values that the calls of \<open>getRandom\<close> return, in order, when
  \<open>p\<close> runs from generator state \<open>g\<close>.
\<close>

primrec draws :: "'a prog \<Rightarrow> mt19937 \<Rightarrow> nat list" where
  "draws (Return x) g = []"
| "draws (Throw e) g = []"
| "draws (GetRandom m k) g =
     (case uniform_int_distribution m g of (r, g') \<Rightarrow> r # draws (k r) g')"
| "draws (Print s p) g = draws p g"

text \<open>
  \<open>holds Q p\<close>: whatever the calls of \<open>getRandom\<close> return within their ranges, \<open>p\<close>
  returns without throwing, and \<open>Q\<close> relates the values drawn to the result.
\<close>

primrec holds :: "(nat list \<Rightarrow> 'a \<Rightarrow> bool) \<Rightarrow> 'a prog \<Rightarrow> bool" where
  "holds Q (Return x) = Q [] x"
| "holds Q (Throw e) = False"
| "holds Q (GetRandom m k) = list_all (\<lambda>r. holds (\<lambda>ds. Q (r # ds)) (k r)) [0..<Suc m]"
| "holds Q (Print s p) = holds Q p"

text \<open>\<open>repeatP n p\<close> runs \<open>p\<close> exactly \<open>n\<close> times, one run after the other, and lists the results.\<close>

primrec repeatP :: "nat \<Rightarrow> 'a prog \<Rightarrow> 'a list prog" where
  "repeatP 0 p = Return []"
| "repeatP (Suc n) p = bindP p (\<lambda>x. bindP (repeatP n p) (\<lambda>xs. Return (x # xs)))"

text \<open>The invariant of the data model, as the specification words it.\<close>

definition countWhere :: "(DoorState \<Rightarrow> bool) \<Rightarrow> Board \<Rightarrow> nat" where
  "countWhere P board = length (filter P board)"

definition carAndOpen :: "DoorState \<Rightarrow> bool" where
  "carAndOpen door = (hasCar door \<and> isOpen door)"

definition selectedAndOpen :: "DoorState \<Rightarrow> bool" where
  "selectedAndOpen door = (selected door \<and> isOpen door)"

definition selectedAndCar :: "DoorState \<Rightarrow> bool" where
  "selectedAndCar door = (selected door \<and> hasCar door)"

definition boardInvariant :: "Board \<Rightarrow> bool" where
  "boardInvariant board =
     (countWhere hasCar board = 1 \<and> countWhere selected board = 1 \<and>
      countWhere isOpen board \<le> 1 \<and>
      countWhere carAndOpen board = 0 \<and> countWhere selectedAndOpen board = 0)"

text \<open>The conditions that \<open>simulateSingleGame\<close> passes to \<open>chooseRandomIndex\<close>.\<close>

definition canBeOpened :: "DoorState \<Rightarrow> bool" where
  "canBeOpened door = (\<not> selected door \<and> \<not> hasCar door)"

definition canBeChosen :: "DoorState \<Rightarrow> bool" where
  "canBeChosen door = (\<not> selected door \<and> \<not> isOpen door)"

text \<open>
  The first two calls of \<open>getRandom\<close> in a trial give \<open>carIndex\<close> and the initial
  \<open>playerChoiceIndex\<close>; these are their values when the trial starts in state \<open>g\<close>.
\<close>

definition drawnCarIndex :: "mt19937 \<Rightarrow> nat" where
  "drawnCarIndex g = fst (uniform_int_distribution (DOORS_NUMBER - 1) g)"

definition drawnPlayerChoiceIndex :: "mt19937 \<Rightarrow> nat" where
  "drawnPlayerChoiceIndex g =
     fst (uniform_int_distribution (DOORS_NUMBER - 1)
            (snd (uniform_int_distribution (DOORS_NUMBER - 1) g)))"

text \<open>
  The number of games won in a list of game results, and the probability of winning one
  game under each strategy.
\<close>

definition wins :: "(bool \<times> Board list) list \<Rightarrow> real" where
  "wins games = real (length (filter fst games))"

definition winProb :: "bool \<Rightarrow> real" where
  "winProb changePlayerDecision = (if changePlayerDecision then 2 / 3 else 1 / 3)"

section \<open>Lemmas about computations\<close>

lemma bindP_Return [simp]: "bindP p Return = p"
  by (induction p) simp_all

lemma bindP_assoc: "bindP (bindP p f) h = bindP p (\<lambda>x. bindP (f x) h)"
  by (induction p) simp_all

lemma run_bindP:
  "run (bindP p f) g =
     (case run p g of
        (out, Inl e) \<Rightarrow> (out, Inl e)
      | (out, Inr (x, g')) \<Rightarrow> (case run (f x) g' of (out', res) \<Rightarrow> (out @ out', res)))"
  by (induction p arbitrary: g) (simp_all split: prod.splits sum.splits)

lemma holds_run:
  "holds Q p \<Longrightarrow> \<exists>x g'. snd (run p g) = Inr (x, g') \<and> Q (draws p g) x"
proof (induction p arbitrary: Q g)
  case (GetRandom m k)
  define r where "r = shd g mod Suc m"
  have "r \<in> set [0..<Suc m]"
    using mod_less_divisor[of "Suc m" "shd g"] by (simp add: r_def del: upt_Suc)
  with GetRandom.prems have "holds (\<lambda>ds. Q (r # ds)) (k r)"
    by (simp add: list_all_iff del: upt_Suc)
  from GetRandom.IH[OF _ this, of "stl g"] show ?case
    by (simp add: uniform_int_distribution_def r_def)
next
  case (Print s p)
  then have "holds Q p" by simp
  from Print.IH[OF this, of g] show ?case by (cases "run p g") simp
qed simp_all

lemma holds_mono:
  "holds Q p \<Longrightarrow> (\<And>ds x. Q ds x \<Longrightarrow> Q' ds x) \<Longrightarrow> holds Q' p"
proof (induction p arbitrary: Q Q')
  case (GetRandom m k)
  show ?case
    unfolding holds.simps list_all_iff
  proof
    fix r assume r: "r \<in> set [0..<Suc m]"
    with GetRandom.prems(1) have "holds (\<lambda>ds. Q (r # ds)) (k r)"
      by (simp add: list_all_iff del: upt_Suc)
    then show "holds (\<lambda>ds. Q' (r # ds)) (k r)"
      by (rule GetRandom.IH[OF rangeI]) (rule GetRandom.prems(2))
  qed
qed simp_all

lemma holds_bindP:
  "holds Q (bindP p f) = holds (\<lambda>ds x. holds (\<lambda>ds'. Q (ds @ ds')) (f x)) p"
  by (induction p arbitrary: Q) (simp_all add: list_all_iff del: upt_Suc)

lemma holds_bindP_log [simp]: "holds Q (bindP (log lg m l) f) = holds Q (f ())"
  by (simp add: log_def)

lemma draws_bindP_log [simp]: "draws (bindP (log lg m l) f) g = draws (f ()) g"
  by (simp add: log_def)

lemma snd_run_bindP_log [simp]: "snd (run (bindP (log lg m l) f) g) = snd (run (f ()) g)"
  by (simp add: log_def split: prod.splits)

lemma holds_log [simp]: "holds Q (log lg m l) = Q [] ()"
  by (simp add: log_def)

lemma expect_bindP: "expect h (bindP p f) = expect (\<lambda>x. expect h (f x)) p"
  by (induction p) (simp_all del: upt_Suc)

lemma expect_bindP_log [simp]: "expect h (bindP (log lg m l) f) = expect h (f ())"
  by (simp add: log_def)

lemma expect_log [simp]: "expect h (log lg m l) = h ()"
  by (simp add: log_def)

lemma expect_mono: "(\<And>x. f x \<le> g x) \<Longrightarrow> expect f p \<le> expect g p"
proof (induction p)
  case (GetRandom m k)
  have "(\<Sum>r\<leftarrow>[0..<Suc m]. expect f (k r)) \<le> (\<Sum>r\<leftarrow>[0..<Suc m]. expect g (k r))"
    by (rule sum_list_mono) (simp add: GetRandom del: upt_Suc)
  then show ?case
    by (simp add: divide_right_mono del: upt_Suc)
qed simp_all

lemma expect_zero [simp]: "expect (\<lambda>x. 0) p = 0"
  by (induction p) (simp_all del: upt_Suc)

lemma expect_add: "expect (\<lambda>x. f x + g x) p = expect f p + expect g p"
  by (induction p) (simp_all add: sum_list_addf add_divide_distrib del: upt_Suc)

lemma expect_cmult: "expect (\<lambda>x. c * f x) p = c * expect f p"
  by (induction p) (simp_all add: sum_list_const_mult del: upt_Suc)

lemma expect_const: "holds (\<lambda>ds x. True) p \<Longrightarrow> expect (\<lambda>x. c) p = c"
proof (induction p)
  case (GetRandom m k)
  have "\<And>r. r \<in> set [0..<Suc m] \<Longrightarrow> expect (\<lambda>x. c) (k r) = c"
  proof -
    fix r assume r: "r \<in> set [0..<Suc m]"
    with GetRandom.prems have "holds (\<lambda>ds x. True) (k r)"
      by (simp add: list_all_iff del: upt_Suc)
    then show "expect (\<lambda>x. c) (k r) = c" by (rule GetRandom.IH[OF rangeI])
  qed
  then have "map (\<lambda>r. expect (\<lambda>x. c) (k r)) [0..<Suc m] = map (\<lambda>r. c) [0..<Suc m]"
    by (intro map_cong refl)
  then have "(\<Sum>r\<leftarrow>[0..<Suc m]. expect (\<lambda>x. c) (k r)) = real (Suc m) * c"
    by (simp only: sum_list_triv length_upt) simp
  then show ?case
    by (simp only: expect.simps) simp
qed simp_all

lemma real_length_if_Cons:
  "real (length (if b then x # xs else xs)) = real (length xs) + (if b then 1 else 0)"
  by simp

lemma prob_nonneg: "0 \<le> prob P p"
  unfolding prob_def using expect_mono[of "\<lambda>x. 0" "\<lambda>x. if P x then 1 else 0" p] by simp

section \<open>Lemmas about the trial\<close>

lemma collectIndices_eq:
  "collectIndices board condition i indices =
     indices @ filter (\<lambda>j. condition (board ! j)) [i..<length board]"
proof (induction board condition i indices rule: collectIndices.induct)
  case (1 board condition i indices)
  show ?case
  proof (cases "i < length board")
    case True
    then show ?thesis
      using 1 by (subst collectIndices.simps) (simp add: upt_conv_Cons)
  next
    case False
    then show ?thesis by (subst collectIndices.simps) simp
  qed
qed

lemma replicate3: "replicate 3 x = [x, x, x]"
  by (simp add: numeral_3_eq_3)

lemmas trial_defs =
  simulateSingleGame_def Let_def DOORS_NUMBER_def chooseRandomIndex_def collectIndices_eq
  getRandom_def debug_def printBoard_def replicate3

lemmas vocabulary_defs =
  countWhere_def boardInvariant_def carAndOpen_def selectedAndOpen_def selectedAndCar_def
  canBeOpened_def canBeChosen_def

lemma trial_first_draws:
  "\<exists>rest. draws (simulateSingleGame lg ch) g =
     drawnCarIndex g # drawnPlayerChoiceIndex g # rest"
  unfolding simulateSingleGame_def Let_def DOORS_NUMBER_def getRandom_def debug_def
    drawnCarIndex_def drawnPlayerChoiceIndex_def
  by (simp add: uniform_int_distribution_def)

lemma trial_outcome_holds:
  "holds (\<lambda>ds game. \<exists>c p more afterCar afterPick rest.
            ds = c # p # more \<and> fst game = (if ch then c \<noteq> p else c = p) \<and>
            snd game = afterCar # afterPick # rest \<and>
            collectIndices afterPick hasCar 0 [] = [c] \<and>
            collectIndices afterPick selected 0 [] = [p])
     (simulateSingleGame lg ch)"
  unfolding trial_defs by (cases ch) (simp_all add: upt_conv_Cons)

lemma trial_returns: "holds (\<lambda>ds game. True) (simulateSingleGame lg ch)"
  by (rule holds_mono[OF trial_outcome_holds]) simp

lemma trial_expect:
  "expect (\<lambda>game. h (fst game)) (simulateSingleGame lg ch) =
     (if ch then 2 / 3 else 1 / 3) * h True + (if ch then 1 / 3 else 2 / 3) * h False"
  unfolding trial_defs by (cases ch; simp add: upt_conv_Cons; argo)

section \<open>The claims about one trial\<close>

text \<open>
  C10. The result of a trial is decided by the first two draws alone: without a change of
  decision the trial returns true exactly when the index drawn for the player equals the
  index drawn for the car, with a change exactly when the two differ, whichever door the
  host opens. The two indices are the car door and the selected door of the board after
  the initial selection.
\<close>

theorem trial_outcome_decided_by_initial_pick:
  "\<exists>afterCar afterPick rest g'.
     snd (run (simulateSingleGame logger changePlayerDecision) g) =
       Inr ((if changePlayerDecision then drawnCarIndex g \<noteq> drawnPlayerChoiceIndex g
             else drawnCarIndex g = drawnPlayerChoiceIndex g,
             afterCar # afterPick # rest), g') \<and>
     collectIndices afterPick hasCar 0 [] = [drawnCarIndex g] \<and>
     collectIndices afterPick selected 0 [] = [drawnPlayerChoiceIndex g]"
proof -
  obtain game g' c p more afterCar afterPick rest where
    r: "snd (run (simulateSingleGame logger changePlayerDecision) g) = Inr (game, g')"
    and d: "draws (simulateSingleGame logger changePlayerDecision) g = c # p # more"
    and w: "fst game = (if changePlayerDecision then c \<noteq> p else c = p)"
    and h: "snd game = afterCar # afterPick # rest"
    and i: "collectIndices afterPick hasCar 0 [] = [c]"
           "collectIndices afterPick selected 0 [] = [p]"
    using holds_run[OF trial_outcome_holds[of changePlayerDecision logger], of g] by blast
  from d trial_first_draws[of logger changePlayerDecision g]
  have "c = drawnCarIndex g" "p = drawnPlayerChoiceIndex g" by auto
  with r w h i show ?thesis
    by (cases game) auto
qed

text \<open>
  C3. In every trial the call of \<open>chooseRandomIndex\<close> for the host finds two doors that
  are neither selected nor hiding the car when the player selected the car door, and one
  otherwise; the call for the change of decision would find exactly one door neither
  selected nor open. Neither call throws, and the trial returns.
\<close>

theorem reveal_and_switch_candidates_exist:
  "\<exists>won afterCar afterPick afterReveal rest g'.
     snd (run (simulateSingleGame logger changePlayerDecision) g) =
       Inr ((won, afterCar # afterPick # afterReveal # rest), g') \<and>
     length (collectIndices afterPick canBeOpened 0 []) =
       (if countWhere selectedAndCar afterPick = 1 then 2 else 1) \<and>
     chooseRandomIndex afterPick canBeOpened \<noteq>
       Throw (invalid_argument ''No suitable indices available'') \<and>
     length (collectIndices afterReveal canBeChosen 0 []) = 1 \<and>
     chooseRandomIndex afterReveal canBeChosen \<noteq>
       Throw (invalid_argument ''No suitable indices available'')"
proof -
  have "holds (\<lambda>ds game. \<exists>afterCar afterPick afterReveal rest.
            snd game = afterCar # afterPick # afterReveal # rest \<and>
            length (collectIndices afterPick canBeOpened 0 []) =
              (if countWhere selectedAndCar afterPick = 1 then 2 else 1) \<and>
            chooseRandomIndex afterPick canBeOpened \<noteq>
              Throw (invalid_argument ''No suitable indices available'') \<and>
            length (collectIndices afterReveal canBeChosen 0 []) = 1 \<and>
            chooseRandomIndex afterReveal canBeChosen \<noteq>
              Throw (invalid_argument ''No suitable indices available''))
          (simulateSingleGame logger changePlayerDecision)"
    unfolding trial_defs vocabulary_defs
    by (cases changePlayerDecision) (simp_all add: upt_conv_Cons)
  from holds_run[OF this, of g] show ?thesis
    by (metis prod.collapse)
qed

text \<open>
  C6. When the player changes the decision, exactly one door is neither selected nor open
  after the host's move; the reselection picks that door, clears the flag of the door
  selected before and sets the flag of the new one, which is then the only selected door,
  and the trial reports whether the new door hides the car.
\<close>

theorem switch_selects_the_remaining_door:
  "\<exists>won afterCar afterPick afterReveal afterSwitch g' old new.
     snd (run (simulateSingleGame logger True) g) =
       Inr ((won, [afterCar, afterPick, afterReveal, afterSwitch]), g') \<and>
     collectIndices afterReveal canBeChosen 0 [] = [new] \<and>
     collectIndices afterReveal selected 0 [] = [old] \<and>
     afterSwitch = (afterReveal[old := (afterReveal ! old)\<lparr>selected := False\<rparr>])
                     [new := (afterReveal ! new)\<lparr>selected := True\<rparr>] \<and>
     \<not> selected (afterSwitch ! old) \<and>
     collectIndices afterSwitch selected 0 [] = [new] \<and>
     won = hasCar (afterSwitch ! new)"
proof -
  have "holds (\<lambda>ds game. \<exists>afterCar afterPick afterReveal afterSwitch old new.
            snd game = [afterCar, afterPick, afterReveal, afterSwitch] \<and>
            collectIndices afterReveal canBeChosen 0 [] = [new] \<and>
            collectIndices afterReveal selected 0 [] = [old] \<and>
            afterSwitch = (afterReveal[old := (afterReveal ! old)\<lparr>selected := False\<rparr>])
                     [new := (afterReveal ! new)\<lparr>selected := True\<rparr>] \<and>
            \<not> selected (afterSwitch ! old) \<and>
            collectIndices afterSwitch selected 0 [] = [new] \<and>
            fst game = hasCar (afterSwitch ! new))
          (simulateSingleGame logger True)"
    unfolding trial_defs vocabulary_defs
    by (simp add: upt_conv_Cons)
  from holds_run[OF this, of g] show ?thesis
    by (metis prod.collapse)
qed

text \<open>
  C2, as the code has it. After the car is placed the board has exactly one car door and
  no selected and no open door. After the initial selection, after the host's move and
  after a change of decision the board satisfies the invariant: one car door, one
  selected door, at most one open door (none before the host's move, one from then on),
  and the open door is neither the car door nor the selected door.
\<close>

theorem board_invariant_from_initial_selection_on:
  "\<exists>won afterCar afterPick afterReveal rest g'.
     snd (run (simulateSingleGame logger changePlayerDecision) g) =
       Inr ((won, afterCar # afterPick # afterReveal # rest), g') \<and>
     length afterCar = DOORS_NUMBER \<and>
     countWhere hasCar afterCar = 1 \<and> countWhere selected afterCar = 0 \<and>
     countWhere isOpen afterCar = 0 \<and>
     length afterPick = DOORS_NUMBER \<and>
     boardInvariant afterPick \<and> countWhere isOpen afterPick = 0 \<and>
     length afterReveal = DOORS_NUMBER \<and>
     boardInvariant afterReveal \<and> countWhere isOpen afterReveal = 1 \<and>
     (if changePlayerDecision
      then \<exists>afterSwitch. rest = [afterSwitch] \<and> length afterSwitch = DOORS_NUMBER \<and>
             boardInvariant afterSwitch \<and> countWhere isOpen afterSwitch = 1
      else rest = [])"
proof -
  have "holds (\<lambda>ds game. \<exists>afterCar afterPick afterReveal rest.
            snd game = afterCar # afterPick # afterReveal # rest \<and>
            length afterCar = 3 \<and>
            countWhere hasCar afterCar = 1 \<and> countWhere selected afterCar = 0 \<and>
            countWhere isOpen afterCar = 0 \<and>
            length afterPick = 3 \<and>
            boardInvariant afterPick \<and> countWhere isOpen afterPick = 0 \<and>
            length afterReveal = 3 \<and>
            boardInvariant afterReveal \<and> countWhere isOpen afterReveal = 1 \<and>
            (if changePlayerDecision
             then \<exists>afterSwitch. rest = [afterSwitch] \<and> length afterSwitch = 3 \<and>
                    boardInvariant afterSwitch \<and> countWhere isOpen afterSwitch = 1
             else rest = []))
          (simulateSingleGame logger changePlayerDecision)"
    unfolding trial_defs vocabulary_defs
    by (cases changePlayerDecision) (simp_all add: upt_conv_Cons)
  from holds_run[OF this, of g] show ?thesis
    unfolding DOORS_NUMBER_def by (metis prod.collapse)
qed

text \<open>
  C2 as stated fails right after the car is placed: in the trial of a generator that
  only produces 0 the car goes behind the first door, and on that board no door is
  selected.
\<close>

theorem board_after_car_placement_has_no_selected_door:
  "snd (run (simulateSingleGame \<lparr>logLevel = INFO\<rparr> False) (sconst 0)) =
     Inr ((True,
           [[\<lparr>selected = False, hasCar = True, isOpen = False\<rparr>,
             \<lparr>selected = False, hasCar = False, isOpen = False\<rparr>,
             \<lparr>selected = False, hasCar = False, isOpen = False\<rparr>],
            [\<lparr>selected = True, hasCar = True, isOpen = False\<rparr>,
             \<lparr>selected = False, hasCar = False, isOpen = False\<rparr>,
             \<lparr>selected = False, hasCar = False, isOpen = False\<rparr>],
            [\<lparr>selected = True, hasCar = True, isOpen = False\<rparr>,
             \<lparr>selected = False, hasCar = False, isOpen = True\<rparr>,
             \<lparr>selected = False, hasCar = False, isOpen = False\<rparr>]]), sconst 0) \<and>
   countWhere selected
     [\<lparr>selected = False, hasCar = True, isOpen = False\<rparr>,
      \<lparr>selected = False, hasCar = False, isOpen = False\<rparr>,
      \<lparr>selected = False, hasCar = False, isOpen = False\<rparr>] = 0 \<and>
   \<not> boardInvariant
     [\<lparr>selected = False, hasCar = True, isOpen = False\<rparr>,
      \<lparr>selected = False, hasCar = False, isOpen = False\<rparr>,
      \<lparr>selected = False, hasCar = False, isOpen = False\<rparr>]"
  unfolding trial_defs vocabulary_defs
  by (simp add: upt_conv_Cons uniform_int_distribution_def)

section \<open>The claim about chooseRandomIndex\<close>

lemma sum_list_indicator_distinct:
  "distinct xs \<Longrightarrow>
   (\<Sum>x\<leftarrow>xs. if x = j then 1 else 0) = (if j \<in> set xs then 1 else (0::real))"
  by (induction xs) auto

lemma prob_pick_from_list:
  assumes "xs \<noteq> []" "distinct xs"
  shows "prob (\<lambda>i. i = j) (GetRandom (length xs - 1) (\<lambda>r. Return (xs ! r))) =
           (if j \<in> set xs then 1 / real (length xs) else 0)"
proof -
  from assms(1) have n: "Suc (length xs - Suc 0) = length xs" by (cases xs) simp_all
  have "map (\<lambda>r. if xs ! r = j then 1 else (0::real)) [0..<length xs] =
        map (\<lambda>x. if x = j then 1 else 0) (map ((!) xs) [0..<length xs])"
    by (simp add: comp_def)
  also have "\<dots> = map (\<lambda>x. if x = j then 1 else 0) xs"
    by (simp only: map_nth)
  finally have s: "(\<Sum>r\<leftarrow>[0..<length xs]. if xs ! r = j then 1 else (0::real)) =
      (if j \<in> set xs then 1 else 0)"
    using assms(2) by (simp only: sum_list_indicator_distinct)
  have "prob (\<lambda>i. i = j) (GetRandom (length xs - 1) (\<lambda>r. Return (xs ! r))) =
        (\<Sum>r\<leftarrow>[0..<length xs]. if xs ! r = j then 1 else (0::real)) / real (length xs)"
    unfolding prob_def by (simp only: expect.simps One_nat_def n)
  with s show ?thesis by simp
qed

text \<open>
  C5. \<open>chooseRandomIndex\<close> collects the indices of the doors that satisfy the condition
  in ascending order. It throws exactly when there is none. Otherwise it makes one draw
  \<open>r\<close> from the generator, bounded by the number of collected indices, and returns the
  \<open>r\<close>-th of them, which is within the board and satisfies the condition; each index that
  satisfies the condition is returned with probability one over their number, every
  other index with probability zero.
\<close>

theorem chooseRandomIndex_contract:
  "let indices = filter (\<lambda>i. condition (board ! i)) [0..<length board] in
     collectIndices board condition 0 [] = indices \<and>
     sorted_wrt (<) indices \<and>
     (indices = []) = (\<forall>i<length board. \<not> condition (board ! i)) \<and>
     (if indices = []
      then run (chooseRandomIndex board condition) g =
             ([], Inl (invalid_argument ''No suitable indices available''))
      else \<exists>r<length indices.
             r = fst (uniform_int_distribution (length indices - 1) g) \<and>
             run (chooseRandomIndex board condition) g = ([], Inr (indices ! r, stl g)) \<and>
             indices ! r < length board \<and> condition (board ! (indices ! r))) \<and>
     (\<forall>j. prob (\<lambda>i. i = j) (chooseRandomIndex board condition) =
            (if j < length board \<and> condition (board ! j) then 1 / real (length indices) else 0))"
proof -
  define indices where "indices = filter (\<lambda>i. condition (board ! i)) [0..<length board]"
  have c: "collectIndices board condition 0 [] = indices"
    by (simp add: collectIndices_eq indices_def)
  have s: "sorted_wrt (<) indices"
    unfolding indices_def by (rule sorted_wrt_filter) simp
  have d: "distinct indices"
    by (simp add: indices_def)
  have m: "j \<in> set indices \<longleftrightarrow> j < length board \<and> condition (board ! j)" for j
    by (auto simp: indices_def)
  have e: "(indices = []) = (\<forall>i<length board. \<not> condition (board ! i))"
    by (auto simp: indices_def filter_empty_conv)
  have r: "if indices = []
      then run (chooseRandomIndex board condition) g =
             ([], Inl (invalid_argument ''No suitable indices available''))
      else \<exists>r<length indices.
             r = fst (uniform_int_distribution (length indices - 1) g) \<and>
             run (chooseRandomIndex board condition) g = ([], Inr (indices ! r, stl g)) \<and>
             indices ! r < length board \<and> condition (board ! (indices ! r))"
  proof (cases "indices = []")
    case True
    then show ?thesis by (simp add: chooseRandomIndex_def c)
  next
    case False
    define r where "r = fst (uniform_int_distribution (length indices - 1) g)"
    from False have "Suc (length indices - Suc 0) = length indices" by (cases indices) simp_all
    then have lt: "r < length indices"
      using False by (simp add: r_def uniform_int_distribution_def)
    then have "indices ! r \<in> set indices" by simp
    then have "indices ! r < length board \<and> condition (board ! (indices ! r))"
      by (simp only: m)
    moreover have "run (chooseRandomIndex board condition) g = ([], Inr (indices ! r, stl g))"
      using False by (simp add: chooseRandomIndex_def c getRandom_def r_def
          uniform_int_distribution_def)
    ultimately show ?thesis using False lt r_def by auto
  qed
  have p: "prob (\<lambda>i. i = j) (chooseRandomIndex board condition) =
            (if j < length board \<and> condition (board ! j) then 1 / real (length indices) else 0)" for j
  proof (cases "indices = []")
    case True
    then show ?thesis using m[of j]
      by (simp add: chooseRandomIndex_def c prob_def)
  next
    case False
    then show ?thesis
      using prob_pick_from_list[OF False d, of j] m[of j]
      by (simp add: chooseRandomIndex_def c getRandom_def)
  qed
  from c s e r p show ?thesis
    unfolding Let_def indices_def[symmetric] by blast
qed

theorem chooseRandomIndex_contract_witness:
  "collectIndices
     [\<lparr>selected = True, hasCar = True, isOpen = False\<rparr>,
      \<lparr>selected = False, hasCar = False, isOpen = False\<rparr>,
      \<lparr>selected = False, hasCar = False, isOpen = False\<rparr>] canBeOpened 0 [] = [1, 2] \<and>
   run (chooseRandomIndex
     [\<lparr>selected = True, hasCar = True, isOpen = False\<rparr>,
      \<lparr>selected = False, hasCar = False, isOpen = False\<rparr>,
      \<lparr>selected = False, hasCar = False, isOpen = False\<rparr>] canBeOpened) (sconst 1) =
     ([], Inr (2, sconst 1)) \<and>
   prob (\<lambda>i. i = 2) (chooseRandomIndex
     [\<lparr>selected = True, hasCar = True, isOpen = False\<rparr>,
      \<lparr>selected = False, hasCar = False, isOpen = False\<rparr>,
      \<lparr>selected = False, hasCar = False, isOpen = False\<rparr>] canBeOpened) = 1 / 2 \<and>
   prob (\<lambda>i. i = 0) (chooseRandomIndex
     [\<lparr>selected = True, hasCar = True, isOpen = False\<rparr>,
      \<lparr>selected = False, hasCar = False, isOpen = False\<rparr>,
      \<lparr>selected = False, hasCar = False, isOpen = False\<rparr>] canBeOpened) = 0"
  using chooseRandomIndex_contract[of canBeOpened
     "[\<lparr>selected = True, hasCar = True, isOpen = False\<rparr>,
      \<lparr>selected = False, hasCar = False, isOpen = False\<rparr>,
      \<lparr>selected = False, hasCar = False, isOpen = False\<rparr>]" "sconst 1"]
  by (simp add: Let_def canBeOpened_def upt_conv_Cons uniform_int_distribution_def)

section \<open>Lemmas about the rounding to binary64\<close>

text \<open>
  \<open>ilog2\<close> is the binary exponent of a positive rational, and \<open>round64 x\<close> is a number
  with a significand of 53 bits at that exponent, at most half a unit in the last place
  away from \<open>x\<close>.
\<close>

lemma ilog2_bounds:
  assumes "0 < x"
  shows "2 powi ilog2 x \<le> x \<and> x < 2 powi (ilog2 x + 1)"
proof -
  obtain a b where q: "quotient_of x = (a, b)" by (cases "quotient_of x")
  then have b: "0 < b" by (rule quotient_of_denom_pos)
  from q have x: "x = of_int a / of_int b" by (rule quotient_of_div)
  with assms b have a: "0 < a" by (simp add: zero_less_divide_iff)
  define k where "k = bitlen a - bitlen b"
  have ba: "1 \<le> bitlen a" "1 \<le> bitlen b"
    using a b by (simp_all add: bitlen_alt_def)
  have A: "(2::rat) powi (bitlen a - 1) \<le> of_int a" "of_int a < (2::rat) powi bitlen a"
  proof -
    from bitlen_bounds[OF a] have "2 ^ nat (bitlen a - 1) \<le> a" "a < 2 ^ nat (bitlen a)" by auto
    then have "(of_int (2 ^ nat (bitlen a - 1)) :: rat) \<le> of_int a"
      "(of_int a :: rat) < of_int (2 ^ nat (bitlen a))"
      by (simp_all only: of_int_le_iff of_int_less_iff)
    then show "(2::rat) powi (bitlen a - 1) \<le> of_int a" "of_int a < (2::rat) powi bitlen a"
      using ba by (simp_all add: power_int_def)
  qed
  have B: "(2::rat) powi (bitlen b - 1) \<le> of_int b" "of_int b < (2::rat) powi bitlen b"
  proof -
    from bitlen_bounds[OF b] have "2 ^ nat (bitlen b - 1) \<le> b" "b < 2 ^ nat (bitlen b)" by auto
    then have "(of_int (2 ^ nat (bitlen b - 1)) :: rat) \<le> of_int b"
      "(of_int b :: rat) < of_int (2 ^ nat (bitlen b))"
      by (simp_all only: of_int_le_iff of_int_less_iff)
    then show "(2::rat) powi (bitlen b - 1) \<le> of_int b" "of_int b < (2::rat) powi bitlen b"
      using ba by (simp_all add: power_int_def)
  qed
  have bpos: "(0::rat) < of_int b" using b by simp
  have up: "x < 2 powi (k + 1)"
  proof -
    have "of_int a < (2::rat) powi bitlen a" by (rule A(2))
    also have "\<dots> = 2 powi (k + 1) * 2 powi (bitlen b - 1)"
      by (simp add: k_def power_int_add[symmetric])
    also have "\<dots> \<le> 2 powi (k + 1) * of_int b"
      using B(1) by (simp add: mult_left_mono)
    finally show ?thesis using bpos by (simp add: x pos_divide_less_eq)
  qed
  have lo: "2 powi (k - 1) \<le> x"
  proof -
    have "(2::rat) powi (k - 1) * of_int b \<le> 2 powi (k - 1) * 2 powi bitlen b"
      using B(2) by (simp add: mult_left_mono)
    also have "\<dots> = 2 powi (bitlen a - 1)"
      by (simp add: k_def power_int_add[symmetric])
    also have "\<dots> \<le> of_int a" by (rule A(1))
    finally show ?thesis using bpos by (simp add: x pos_le_divide_eq)
  qed
  have i: "ilog2 x = (if 2 powi k \<le> x then k else k - 1)"
    by (simp add: ilog2_def q k_def Let_def)
  show ?thesis
  proof (cases "2 powi k \<le> x")
    case True
    with i up show ?thesis by simp
  next
    case False
    with i lo show ?thesis by simp
  qed
qed

lemma roundTiesToEven_nearest: "\<bar>of_int (roundTiesToEven m) - m\<bar> \<le> 1 / 2"
proof -
  have "of_int \<lfloor>m\<rfloor> \<le> m" "m < of_int \<lfloor>m\<rfloor> + 1" by linarith+
  then show ?thesis
    by (auto simp: roundTiesToEven_def Let_def abs_le_iff)
qed

lemma round64_half_ulp:
  assumes "x \<noteq> 0"
  shows "\<bar>round64 x - x\<bar> \<le> 2 powi (ilog2 \<bar>x\<bar> - 53)"
proof -
  define e where "e = ilog2 \<bar>x\<bar>"
  define m where "m = \<bar>x\<bar> * 2 powi (52 - e)"
  define u where "u = (2::rat) powi (e - 52)"
  have u: "0 < u" by (simp add: u_def)
  have mu: "m * u = \<bar>x\<bar>"
    by (simp add: m_def u_def power_int_add[symmetric] mult.assoc)
  have r: "round64 x = sgn x * (of_int (roundTiesToEven m) * u)"
    using assms by (simp add: round64_def e_def m_def u_def Let_def mult.assoc)
  have "x = sgn x * (m * u)" by (simp add: mu mult_sgn_abs)
  then have "round64 x - x = sgn x * ((of_int (roundTiesToEven m) - m) * u)"
    by (simp add: r algebra_simps)
  then have "\<bar>round64 x - x\<bar> = \<bar>of_int (roundTiesToEven m) - m\<bar> * u"
    using assms u by (simp add: abs_mult abs_sgn_eq)
  also have "\<dots> \<le> (1 / 2) * u"
    using roundTiesToEven_nearest[of m] u by (simp add: mult_right_mono)
  also have "\<dots> = 2 powi (e - 53)"
    by (simp add: u_def power_int_diff)
  finally show ?thesis by (simp add: e_def)
qed

lemma roundTiesToEven_range:
  assumes "of_int lo \<le> m" "m < of_int hi"
  shows "lo \<le> roundTiesToEven m \<and> roundTiesToEven m \<le> hi"
proof -
  from assms have "lo \<le> \<lfloor>m\<rfloor>" "\<lfloor>m\<rfloor> < hi"
    by (simp_all add: le_floor_iff floor_less_iff)
  then show ?thesis
    by (auto simp: roundTiesToEven_def Let_def)
qed

lemma round64_significand:
  assumes "x \<noteq> 0"
  shows "\<exists>N. round64 x = sgn x * of_int N * 2 powi (ilog2 \<bar>x\<bar> - 52) \<and>
             2 ^ 52 \<le> N \<and> N \<le> 2 ^ 53"
proof -
  define e where "e = ilog2 \<bar>x\<bar>"
  define m where "m = \<bar>x\<bar> * 2 powi (52 - e)"
  from assms have "0 < \<bar>x\<bar>" by simp
  from ilog2_bounds[OF this] have b: "2 powi e \<le> \<bar>x\<bar>" "\<bar>x\<bar> < 2 powi (e + 1)"
    by (simp_all add: e_def)
  have p: "(0::rat) < 2 powi (52 - e)" by simp
  have "2 powi e * 2 powi (52 - e) \<le> m"
    unfolding m_def using b(1) p by (simp only: mult_le_cancel_right_pos)
  then have lo: "of_int (2 ^ 52) \<le> m"
    by (simp add: power_int_add[symmetric])
  have "m < 2 powi (e + 1) * 2 powi (52 - e)"
    unfolding m_def using b(2) p by (simp only: mult_less_cancel_right_pos)
  then have hi: "m < of_int (2 ^ 53)"
    by (simp add: power_int_add[symmetric])
  from roundTiesToEven_range[OF lo hi]
  have "2 ^ 52 \<le> roundTiesToEven m \<and> roundTiesToEven m \<le> 2 ^ 53" .
  moreover have "round64 x = sgn x * of_int (roundTiesToEven m) * 2 powi (e - 52)"
    using assms by (simp add: round64_def e_def m_def Let_def)
  ultimately show ?thesis unfolding e_def by blast
qed

lemma round64_examples:
  "round64 (1 / 3) = 6004799503160661 / 18014398509481984"
  "round64 (2 / 3) = 6004799503160661 / 9007199254740992"
  "round64 (1 / 2) = 1 / 2"
  by code_simp+

section \<open>The claims about batches\<close>

lemma length_if_Cons:
  "int (length (if b then x # xs else xs)) = (if b then 1 else 0) + int (length xs)"
  by simp

lemma runLoop_repeatP:
  "runLoop lg n ch i w =
     bindP (repeatP (nat (n - i)) (simulateSingleGame lg ch))
       (\<lambda>games. Return (w + int (length (filter fst games))))"
proof (induction lg n ch i w rule: runLoop.induct)
  case (1 lg n ch i w)
  show ?case
  proof (cases "i < n")
    case True
    then have "nat (n - i) = Suc (nat (n - (i + 1)))" by simp
    with True 1 show ?thesis
      by (subst runLoop.simps) (simp add: bindP_assoc add.assoc length_if_Cons)
  next
    case False
    then show ?thesis by (subst runLoop.simps) simp
  qed
qed

lemma holds_repeatP:
  "holds (\<lambda>ds x. True) p \<Longrightarrow> holds (\<lambda>ds xs. length xs = n) (repeatP n p)"
proof (induction n)
  case 0
  show ?case by simp
next
  case (Suc n)
  have "holds (\<lambda>ds x. holds (\<lambda>ds' xs. length xs = n) (repeatP n p)) p"
    using Suc.prems by (rule holds_mono) (simp add: Suc)
  then show ?case
    by (simp add: holds_bindP)
qed

lemma runSimulation_repeatP:
  "runSimulation lg n ch =
     bindP (repeatP (nat n) (simulateSingleGame lg ch)) (\<lambda>games.
       let winCount = int (length (filter fst games));
           winRatio = divDouble winCount n in
       bindP (info lg (Message ''Simulations: {}, Wins: {}, Win Ratio: {:.2f}''
                [IntArg n, IntArg winCount, DoubleArg winRatio])) (\<lambda>_.
       Return (winCount, winRatio)))"
  by (simp add: runSimulation_def runLoop_repeatP bindP_assoc Let_def)

lemma round64_1: "round64 1 = 1"
  by (simp add: round64_def ilog2_def roundTiesToEven_def Let_def)

lemma divDouble_pos: "0 < n \<Longrightarrow> divDouble w n = Finite (round64 (of_int w / of_int n))"
  by (simp add: divDouble_def round64_def)

lemma runSimulation_holds:
  "holds (\<lambda>ds res. 0 \<le> fst res \<and> fst res \<le> max 0 n \<and> snd res = divDouble (fst res) n)
     (runSimulation lg n ch)"
proof -
  have "holds (\<lambda>ds games. length games = nat n) (repeatP (nat n) (simulateSingleGame lg ch))"
    by (rule holds_repeatP) (rule trial_returns)
  then have "holds (\<lambda>ds games. 0 \<le> int (length (filter fst games)) \<and>
                int (length (filter fst games)) \<le> max 0 n)
              (repeatP (nat n) (simulateSingleGame lg ch))"
  proof (rule holds_mono)
    fix ds :: "nat list" and games :: "(bool \<times> Board list) list"
    assume l: "length games = nat n"
    have "length (filter fst games) \<le> length games" by (rule length_filter_le)
    with l show "0 \<le> int (length (filter fst games)) \<and>
                int (length (filter fst games)) \<le> max 0 n" by simp
  qed
  then show ?thesis
    by (simp add: runSimulation_repeatP holds_bindP info_def Let_def)
qed

lemma runSimulation_returns:
  "\<exists>out res g'. run (runSimulation lg n ch) g = (out, Inr (res, g'))"
  using holds_run[OF runSimulation_holds[of n lg ch], of g]
  by (metis prod.collapse)

lemma trial_on_zeros:
  "run (simulateSingleGame \<lparr>logLevel = INFO\<rparr> False) (sconst 0) =
     ([], Inr ((True,
           [[\<lparr>selected = False, hasCar = True, isOpen = False\<rparr>,
             \<lparr>selected = False, hasCar = False, isOpen = False\<rparr>,
             \<lparr>selected = False, hasCar = False, isOpen = False\<rparr>],
            [\<lparr>selected = True, hasCar = True, isOpen = False\<rparr>,
             \<lparr>selected = False, hasCar = False, isOpen = False\<rparr>,
             \<lparr>selected = False, hasCar = False, isOpen = False\<rparr>],
            [\<lparr>selected = True, hasCar = True, isOpen = False\<rparr>,
             \<lparr>selected = False, hasCar = False, isOpen = True\<rparr>,
             \<lparr>selected = False, hasCar = False, isOpen = False\<rparr>]]), sconst 0))"
  unfolding trial_defs log_def
  by (simp add: upt_conv_Cons uniform_int_distribution_def)

text \<open>
  C7. For a positive \<open>simulationsNumber\<close>, \<open>runSimulation\<close> is the computation
  that runs \<open>simulateSingleGame\<close> exactly \<open>simulationsNumber\<close> times in sequence, takes
  as \<open>winCount\<close> the number of games that returned true, and reports and returns it with
  \<open>winRatio\<close>, the double quotient of \<open>winCount\<close> by \<open>simulationsNumber\<close>. On every
  generator state the batch returns, and \<open>0 \<le> winCount \<le> simulationsNumber\<close>.
\<close>

theorem runSimulation_counts_wins:
  assumes "0 < simulationsNumber"
  shows "runSimulation logger simulationsNumber changePlayerDecision =
     bindP (repeatP (nat simulationsNumber) (simulateSingleGame logger changePlayerDecision))
       (\<lambda>games.
          let winCount = int (length (filter fst games));
              winRatio = divDouble winCount simulationsNumber in
          bindP (info logger (Message ''Simulations: {}, Wins: {}, Win Ratio: {:.2f}''
                   [IntArg simulationsNumber, IntArg winCount, DoubleArg winRatio])) (\<lambda>_.
          Return (winCount, winRatio))) \<and>
   (\<exists>games g'.
      snd (run (repeatP (nat simulationsNumber) (simulateSingleGame logger changePlayerDecision)) g) =
        Inr (games, g') \<and>
      length games = nat simulationsNumber \<and>
      snd (run (runSimulation logger simulationsNumber changePlayerDecision) g) =
        Inr ((int (length (filter fst games)),
              Finite (round64 (of_int (int (length (filter fst games))) / of_int simulationsNumber))), g') \<and>
      0 \<le> int (length (filter fst games)) \<and>
      int (length (filter fst games)) \<le> simulationsNumber)"
proof
  show "runSimulation logger simulationsNumber changePlayerDecision =
     bindP (repeatP (nat simulationsNumber) (simulateSingleGame logger changePlayerDecision))
       (\<lambda>games.
          let winCount = int (length (filter fst games));
              winRatio = divDouble winCount simulationsNumber in
          bindP (info logger (Message ''Simulations: {}, Wins: {}, Win Ratio: {:.2f}''
                   [IntArg simulationsNumber, IntArg winCount, DoubleArg winRatio])) (\<lambda>_.
          Return (winCount, winRatio)))"
    by (rule runSimulation_repeatP)
next
  let ?rep = "repeatP (nat simulationsNumber) (simulateSingleGame logger changePlayerDecision)"
  have "holds (\<lambda>ds games. length games = nat simulationsNumber) ?rep"
    by (rule holds_repeatP) (rule trial_returns)
  from holds_run[OF this, of g] obtain games g' where
    r: "snd (run ?rep g) = Inr (games, g')" and l: "length games = nat simulationsNumber"
    by blast
  have le: "length (filter fst games) \<le> length games" by (rule length_filter_le)
  have "snd (run (runSimulation logger simulationsNumber changePlayerDecision) g) =
        Inr ((int (length (filter fst games)),
              divDouble (int (length (filter fst games))) simulationsNumber), g')"
    using r
    by (cases "run ?rep g")
       (simp add: runSimulation_repeatP run_bindP info_def log_def Let_def split: prod.splits)
  with r l le assms show "\<exists>games g'.
      snd (run ?rep g) = Inr (games, g') \<and>
      length games = nat simulationsNumber \<and>
      snd (run (runSimulation logger simulationsNumber changePlayerDecision) g) =
        Inr ((int (length (filter fst games)),
              Finite (round64 (of_int (int (length (filter fst games))) / of_int simulationsNumber))), g') \<and>
      0 \<le> int (length (filter fst games)) \<and>
      int (length (filter fst games)) \<le> simulationsNumber"
    by (auto simp: divDouble_pos)
qed

theorem runSimulation_counts_wins_witness:
  "(0::int) < 1 \<and>
   snd (run (runSimulation \<lparr>logLevel = INFO\<rparr> 1 False) (sconst 0)) =
     Inr ((1, Finite 1), sconst 0)"
proof -
  have h: "(0::int) < 1" by simp
  from runSimulation_counts_wins[OF h, of "\<lparr>logLevel = INFO\<rparr>" False "sconst 0"]
  obtain games g' where
    r: "snd (run (repeatP (nat 1) (simulateSingleGame \<lparr>logLevel = INFO\<rparr> False)) (sconst 0)) =
          Inr (games, g')"
    and s: "snd (run (runSimulation \<lparr>logLevel = INFO\<rparr> 1 False) (sconst 0)) =
        Inr ((int (length (filter fst games)),
              Finite (round64 (of_int (int (length (filter fst games))) / of_int 1))), g')"
    by blast
  from r have "length (filter fst games) = 1 \<and> g' = sconst 0"
    by (auto simp: run_bindP trial_on_zeros)
  with s h show ?thesis by (simp add: round64_1)
qed

text \<open>
  C9. A batch of one trial returns \<open>winCount\<close> 0 with \<open>winRatio\<close> exactly 0.0, or
  \<open>winCount\<close> 1 with \<open>winRatio\<close> exactly 1.0.
\<close>

theorem single_trial_batch_ratio_exact:
  "\<exists>winCount winRatio g'.
     snd (run (runSimulation logger 1 changePlayerDecision) g) = Inr ((winCount, winRatio), g') \<and>
     (winCount = 0 \<and> winRatio = Finite 0 \<or> winCount = 1 \<and> winRatio = Finite 1)"
proof -
  from holds_run[OF runSimulation_holds[of 1 logger changePlayerDecision], of g]
  obtain res g' where r: "snd (run (runSimulation logger 1 changePlayerDecision) g) = Inr (res, g')"
    and b: "0 \<le> fst res" "fst res \<le> 1" and d: "snd res = divDouble (fst res) 1"
    by auto
  from b have "fst res = 0 \<or> fst res = 1" by linarith
  then have "fst res = 0 \<and> snd res = Finite 0 \<or> fst res = 1 \<and> snd res = Finite 1"
    using d by (auto simp: divDouble_def round64_1)
  with r show ?thesis by (cases res) auto
qed

lemma simulate_returns: "\<exists>out g'. run (simulate lg n) g = (out, Inr ((), g'))"
proof -
  obtain out1 res1 g1 where "run (runSimulation lg n False) g = (out1, Inr (res1, g1))"
    using runSimulation_returns by blast
  moreover obtain out2 res2 g2 where "run (runSimulation lg n True) g1 = (out2, Inr (res2, g2))"
    using runSimulation_returns by blast
  ultimately show ?thesis
    by (simp add: simulate_def run_bindP info_def log_def)
qed

text \<open>
  C8. \<open>simulate\<close> runs two batches with the same \<open>simulationsNumber\<close>: first the one
  in which the player keeps the door, from the generator state \<open>simulate\<close> starts in, then
  the one in which the player changes, from the state the first batch left the generator
  in. The output is that of the first batch followed by that of the second, each after
  its headline.
\<close>

theorem simulate_runs_stay_then_switch:
  "\<exists>out1 res1 g1 out2 res2 g2.
     run (runSimulation logger simulationsNumber False) g = (out1, Inr (res1, g1)) \<and>
     run (runSimulation logger simulationsNumber True) g1 = (out2, Inr (res2, g2)) \<and>
     run (simulate logger simulationsNumber) g =
       (fst (run (info logger (Message ''Running simulation where the player does not change the door:'' [])) g)
        @ out1
        @ fst (run (info logger (Message ''Running simulation where the player changes the door:'' [])) g1)
        @ out2,
        Inr ((), g2))"
proof -
  obtain out1 res1 g1 where
    r1: "run (runSimulation logger simulationsNumber False) g = (out1, Inr (res1, g1))"
    using runSimulation_returns by blast
  obtain out2 res2 g2 where
    r2: "run (runSimulation logger simulationsNumber True) g1 = (out2, Inr (res2, g2))"
    using runSimulation_returns by blast
  have "run (simulate logger simulationsNumber) g =
       (fst (run (info logger (Message ''Running simulation where the player does not change the door:'' [])) g)
        @ out1
        @ fst (run (info logger (Message ''Running simulation where the player changes the door:'' [])) g1)
        @ out2,
        Inr ((), g2))"
    using r1 r2 by (simp add: simulate_def run_bindP info_def log_def)
  with r1 r2 show ?thesis by blast
qed

section \<open>The claim about the command line\<close>

lemma stoi_examples:
  "stoi ''0'' = Inr 0"
  "stoi ''abc'' = Inl (invalid_argument ''stoi'')"
  "stoi ''-3'' = Inr (- 3)"
  "stoi ''3.7'' = Inr 3"
  "stoi ''99999999999'' = Inl (out_of_range ''stoi'')"
  by (simp_all add: stoi_def isspace_def isdigit_def digitsValue_def INT_MIN_def INT_MAX_def Let_def)

lemma runLoop_no_trials: "n \<le> i \<Longrightarrow> runLoop lg n ch i w = Return w"
  by (subst runLoop.simps) simp

lemma parseArguments_simulations_error:
  "stoi token = Inl e \<Longrightarrow> parseArguments (prog # ''--simulations'' # token # rest) = Inl e"
  unfolding parseArguments_def
  by (subst parseLoop.simps) simp

lemma parseArguments_simulations_ok:
  "stoi token = Inr n \<Longrightarrow> parseArguments [prog, ''--simulations'', token] = Inr (n, INFO)"
  unfolding parseArguments_def
  by (subst parseLoop.simps, simp, subst parseLoop.simps, simp)

lemma main_accepts_converted_token:
  assumes "stoi token = Inr n"
  shows "\<exists>out. main [prog, ''--simulations'', token] seeded =
           \<lparr>exitCode = EXIT_SUCCESS, stdout = out, stderr = []\<rparr>"
proof -
  from simulate_returns[of "\<lparr>logLevel = INFO\<rparr>" n seeded]
  obtain out g' where "run (simulate \<lparr>logLevel = INFO\<rparr> n) seeded = (out, Inr ((), g'))"
    by blast
  with assms show ?thesis
    by (simp add: main_def parseArguments_simulations_ok)
qed

text \<open>
  C4, as the code has it. A \<open>--simulations\<close> token that \<open>std::stoi\<close> cannot convert
  makes the program fail before any trial: exit code \<open>EXIT_FAILURE\<close>, nothing on the
  output stream, an \<open>Error:\<close> line and the usage line on the error stream. A token that
  \<open>std::stoi\<close> converts is accepted whatever its value: the program exits with
  \<open>EXIT_SUCCESS\<close> and an empty error stream. When the value is zero or negative no trial
  runs and both batches report zero wins with the quotient \<open>0.0 / simulationsNumber\<close>,
  which is NaN for zero.
\<close>

theorem simulations_token_rejected_exactly_when_stoi_fails:
  "(stoi token = Inl e \<longrightarrow>
      main (prog # ''--simulations'' # token # rest) seeded =
        \<lparr>exitCode = EXIT_FAILURE, stdout = [],
         stderr = [''Error: '' @ what e,
                   ''Usage: '' @ prog @ '' [--simulations <number>] [--verbose]'']\<rparr>) \<and>
   (stoi token = Inr n \<longrightarrow>
      exitCode (main [prog, ''--simulations'', token] seeded) = EXIT_SUCCESS \<and>
      stderr (main [prog, ''--simulations'', token] seeded) = []) \<and>
   (stoi token = Inr n \<and> n \<le> 0 \<longrightarrow>
      stdout (main [prog, ''--simulations'', token] seeded) =
        [Message ''Running simulation where the player does not change the door:'' [],
         Message ''Simulations: {}, Wins: {}, Win Ratio: {:.2f}''
           [IntArg n, IntArg 0, DoubleArg (if n = 0 then NaN else NegZero)],
         Message ''Running simulation where the player changes the door:'' [],
         Message ''Simulations: {}, Wins: {}, Win Ratio: {:.2f}''
           [IntArg n, IntArg 0, DoubleArg (if n = 0 then NaN else NegZero)]])"
proof (intro conjI impI)
  assume "stoi token = Inl e"
  then show "main (prog # ''--simulations'' # token # rest) seeded =
        \<lparr>exitCode = EXIT_FAILURE, stdout = [],
         stderr = [''Error: '' @ what e,
                   ''Usage: '' @ prog @ '' [--simulations <number>] [--verbose]'']\<rparr>"
    by (simp add: main_def parseArguments_simulations_error errorLines_def)
next
  assume "stoi token = Inr n"
  from main_accepts_converted_token[OF this, of prog seeded]
  show "exitCode (main [prog, ''--simulations'', token] seeded) = EXIT_SUCCESS"
    and "stderr (main [prog, ''--simulations'', token] seeded) = []"
    by auto
next
  assume a: "stoi token = Inr n \<and> n \<le> 0"
  then have "divDouble 0 n = (if n = 0 then NaN else NegZero)"
    by (simp add: divDouble_def)
  with a show "stdout (main [prog, ''--simulations'', token] seeded) =
        [Message ''Running simulation where the player does not change the door:'' [],
         Message ''Simulations: {}, Wins: {}, Win Ratio: {:.2f}''
           [IntArg n, IntArg 0, DoubleArg (if n = 0 then NaN else NegZero)],
         Message ''Running simulation where the player changes the door:'' [],
         Message ''Simulations: {}, Wins: {}, Win Ratio: {:.2f}''
           [IntArg n, IntArg 0, DoubleArg (if n = 0 then NaN else NegZero)]]"
    by (simp add: main_def parseArguments_simulations_ok simulate_def runSimulation_def
        runLoop_no_trials info_def log_def Let_def)
qed

theorem simulations_token_rejected_exactly_when_stoi_fails_witness:
  "stoi ''abc'' = Inl (invalid_argument ''stoi'') \<and>
   main [''simulator'', ''--simulations'', ''abc''] (sconst 0) =
     \<lparr>exitCode = 1, stdout = [],
      stderr = [''Error: stoi'', ''Usage: simulator [--simulations <number>] [--verbose]'']\<rparr> \<and>
   stoi ''-3'' = Inr (- 3) \<and>
   exitCode (main [''simulator'', ''--simulations'', ''-3''] (sconst 0)) = 0 \<and>
   stderr (main [''simulator'', ''--simulations'', ''-3''] (sconst 0)) = [] \<and>
   stdout (main [''simulator'', ''--simulations'', ''-3''] (sconst 0)) =
     [Message ''Running simulation where the player does not change the door:'' [],
      Message ''Simulations: {}, Wins: {}, Win Ratio: {:.2f}''
        [IntArg (- 3), IntArg 0, DoubleArg NegZero],
      Message ''Running simulation where the player changes the door:'' [],
      Message ''Simulations: {}, Wins: {}, Win Ratio: {:.2f}''
        [IntArg (- 3), IntArg 0, DoubleArg NegZero]]"
proof -
  have a: "stoi ''abc'' = Inl (invalid_argument ''stoi'')" and b: "stoi ''-3'' = Inr (- 3)"
    by (simp_all add: stoi_examples)
  have c: "(- 3 :: int) \<le> 0" by simp
  from simulations_token_rejected_exactly_when_stoi_fails
         [of "''abc''" "invalid_argument ''stoi''" "''simulator''" "[]" "sconst 0" "- 3"] a
  have 1: "main [''simulator'', ''--simulations'', ''abc''] (sconst 0) =
     \<lparr>exitCode = EXIT_FAILURE, stdout = [],
      stderr = [''Error: '' @ what (invalid_argument ''stoi''),
                ''Usage: '' @ ''simulator'' @ '' [--simulations <number>] [--verbose]'']\<rparr>"
    by blast
  from simulations_token_rejected_exactly_when_stoi_fails
         [of "''-3''" "invalid_argument ''stoi''" "''simulator''" "[]" "sconst 0" "- 3"] b c
  have 2: "exitCode (main [''simulator'', ''--simulations'', ''-3''] (sconst 0)) = EXIT_SUCCESS"
    and 3: "stderr (main [''simulator'', ''--simulations'', ''-3''] (sconst 0)) = []"
    and 4: "stdout (main [''simulator'', ''--simulations'', ''-3''] (sconst 0)) =
     [Message ''Running simulation where the player does not change the door:'' [],
      Message ''Simulations: {}, Wins: {}, Win Ratio: {:.2f}''
        [IntArg (- 3), IntArg 0, DoubleArg (if (- 3 :: int) = 0 then NaN else NegZero)],
      Message ''Running simulation where the player changes the door:'' [],
      Message ''Simulations: {}, Wins: {}, Win Ratio: {:.2f}''
        [IntArg (- 3), IntArg 0, DoubleArg (if (- 3 :: int) = 0 then NaN else NegZero)]]"
    by blast+
  from a b 1 2 3 4 show ?thesis
    by (simp add: EXIT_FAILURE_def EXIT_SUCCESS_def)
qed

text \<open>
  C4 as stated fails for \<open>--simulations 0\<close>: the program exits with code 0, writes
  nothing to the error stream, and reports the win ratio \<open>0.0 / 0\<close>.
\<close>

theorem zero_simulations_is_accepted:
  "main [''simulator'', ''--simulations'', ''0''] (sconst 0) =
     \<lparr>exitCode = 0,
      stdout =
        [Message ''Running simulation where the player does not change the door:'' [],
         Message ''Simulations: {}, Wins: {}, Win Ratio: {:.2f}'' [IntArg 0, IntArg 0, DoubleArg NaN],
         Message ''Running simulation where the player changes the door:'' [],
         Message ''Simulations: {}, Wins: {}, Win Ratio: {:.2f}'' [IntArg 0, IntArg 0, DoubleArg NaN]],
      stderr = []\<rparr>"
  by (simp add: main_def parseArguments_simulations_ok stoi_examples simulate_def runSimulation_def
        runLoop_no_trials info_def log_def Let_def divDouble_def EXIT_SUCCESS_def)

section \<open>The claim about the win probabilities\<close>

lemma repeat_expect_Suc:
  "expect (\<lambda>games. h (wins games)) (repeatP (Suc m) (simulateSingleGame lg ch)) =
     winProb ch * expect (\<lambda>games. h (wins games + 1)) (repeatP m (simulateSingleGame lg ch)) +
     (1 - winProb ch) * expect (\<lambda>games. h (wins games)) (repeatP m (simulateSingleGame lg ch))"
proof -
  let ?t = "simulateSingleGame lg ch"
  define G where "G b = expect (\<lambda>games. h (wins games + (if b then 1 else 0))) (repeatP m ?t)" for b
  have "expect (\<lambda>games. h (wins games)) (repeatP (Suc m) ?t) =
        expect (\<lambda>game. G (fst game)) ?t"
    by (simp add: expect_bindP G_def wins_def real_length_if_Cons)
  also have "\<dots> = winProb ch * G True + (1 - winProb ch) * G False"
    by (simp add: trial_expect winProb_def)
  finally show ?thesis by (simp add: G_def)
qed

lemma repeat_total: "expect (\<lambda>games. 1) (repeatP m (simulateSingleGame lg ch)) = 1"
proof -
  have "holds (\<lambda>ds xs. length xs = m) (repeatP m (simulateSingleGame lg ch))"
    by (rule holds_repeatP) (rule trial_returns)
  then have "holds (\<lambda>ds xs. True) (repeatP m (simulateSingleGame lg ch))"
    by (rule holds_mono) simp
  then show ?thesis by (rule expect_const)
qed

lemma repeat_mean:
  "expect (\<lambda>games. wins games + a) (repeatP m (simulateSingleGame lg ch)) =
     real m * winProb ch + a"
proof (induction m arbitrary: a)
  case 0
  show ?case by (simp add: wins_def)
next
  case (Suc m)
  have "expect (\<lambda>games. wins games + a) (repeatP (Suc m) (simulateSingleGame lg ch)) =
        winProb ch * (real m * winProb ch + (1 + a)) +
        (1 - winProb ch) * (real m * winProb ch + a)"
    using repeat_expect_Suc[of "\<lambda>w. w + a" m lg ch] Suc[of a] Suc[of "1 + a"]
    by (simp add: add.assoc)
  then show ?case by (simp add: algebra_simps)
qed

lemma repeat_second_moment:
  "expect (\<lambda>games. (wins games + a)\<^sup>2) (repeatP m (simulateSingleGame lg ch)) =
     real m * winProb ch * (1 - winProb ch) + (real m * winProb ch + a)\<^sup>2"
proof (induction m arbitrary: a)
  case 0
  show ?case by (simp add: wins_def)
next
  case (Suc m)
  have "expect (\<lambda>games. (wins games + a)\<^sup>2) (repeatP (Suc m) (simulateSingleGame lg ch)) =
        winProb ch * (real m * winProb ch * (1 - winProb ch) + (real m * winProb ch + (1 + a))\<^sup>2) +
        (1 - winProb ch) * (real m * winProb ch * (1 - winProb ch) + (real m * winProb ch + a)\<^sup>2)"
    using repeat_expect_Suc[of "\<lambda>w. (w + a)\<^sup>2" m lg ch] Suc[of a] Suc[of "1 + a"]
    by (simp add: add.assoc)
  then show ?case by (simp add: algebra_simps power2_eq_square)
qed

lemma batch_prob_as_repeat:
  "prob (\<lambda>res. Q (real_of_int (fst res))) (runSimulation lg n ch) =
   expect (\<lambda>games. if Q (wins games) then 1 else 0) (repeatP (nat n) (simulateSingleGame lg ch))"
  by (simp add: prob_def runSimulation_repeatP expect_bindP info_def Let_def wins_def)

lemma chebyshev_pointwise:
  fixes w :: real
  assumes "0 < m" "0 < \<epsilon>"
  shows "(if \<epsilon> \<le> \<bar>w / m - p\<bar> then 1 else 0) \<le> (1 / (m * \<epsilon>)\<^sup>2) * (w + (- (m * p)))\<^sup>2"
proof (cases "\<epsilon> \<le> \<bar>w / m - p\<bar>")
  case True
  have "\<bar>w - m * p\<bar> = m * \<bar>w / m - p\<bar>"
    using assms(1) by (simp add: abs_mult[symmetric] field_simps)
  with True assms have "m * \<epsilon> \<le> \<bar>w - m * p\<bar>" by simp
  moreover have "0 \<le> m * \<epsilon>" using assms by simp
  ultimately have "(m * \<epsilon>)\<^sup>2 \<le> (w - m * p)\<^sup>2"
    by (metis abs_le_square_iff abs_of_nonneg)
  moreover have "0 < (m * \<epsilon>)\<^sup>2" using assms by simp
  ultimately have "1 \<le> (w - m * p)\<^sup>2 / (m * \<epsilon>)\<^sup>2" by simp
  with True show ?thesis by simp
next
  case False
  then show ?thesis by simp
qed

lemma batch_chebyshev:
  assumes "0 < n" "0 < \<epsilon>"
  shows "prob (\<lambda>res. \<epsilon> \<le> \<bar>real_of_int (fst res) / real_of_int n - winProb ch\<bar>)
           (runSimulation lg n ch)
         \<le> winProb ch * (1 - winProb ch) / (real_of_int n * \<epsilon>\<^sup>2)"
proof -
  define m where "m = real_of_int n"
  have m: "0 < m" "real (nat n) = m" using assms(1) by (simp_all add: m_def)
  let ?rep = "repeatP (nat n) (simulateSingleGame lg ch)"
  have "prob (\<lambda>res. \<epsilon> \<le> \<bar>real_of_int (fst res) / m - winProb ch\<bar>) (runSimulation lg n ch) =
        expect (\<lambda>games. if \<epsilon> \<le> \<bar>wins games / m - winProb ch\<bar> then 1 else 0) ?rep"
    by (rule batch_prob_as_repeat)
  also have "\<dots> \<le> expect (\<lambda>games. (1 / (m * \<epsilon>)\<^sup>2) * (wins games + (- (m * winProb ch)))\<^sup>2) ?rep"
    by (rule expect_mono) (rule chebyshev_pointwise[OF m(1) assms(2)])
  also have "\<dots> = (1 / (m * \<epsilon>)\<^sup>2) * (m * winProb ch * (1 - winProb ch))"
    by (simp only: expect_cmult repeat_second_moment m(2)) simp
  also have "\<dots> = winProb ch * (1 - winProb ch) / (m * \<epsilon>\<^sup>2)"
    using m(1) assms(2) by (simp add: power2_eq_square field_simps)
  finally show ?thesis by (simp add: m_def)
qed

lemma batch_converges:
  assumes "0 < \<epsilon>"
  shows "(\<lambda>n. prob (\<lambda>res. \<epsilon> \<le> \<bar>real_of_int (fst res) / real n - winProb ch\<bar>)
                (runSimulation lg (int n) ch)) \<longlonglongrightarrow> 0"
proof (rule tendsto_sandwich)
  show "\<forall>\<^sub>F n in sequentially. 0 \<le> prob (\<lambda>res. \<epsilon> \<le> \<bar>real_of_int (fst res) / real n - winProb ch\<bar>)
                (runSimulation lg (int n) ch)"
    by (simp add: prob_nonneg)
  show "\<forall>\<^sub>F n in sequentially. prob (\<lambda>res. \<epsilon> \<le> \<bar>real_of_int (fst res) / real n - winProb ch\<bar>)
                (runSimulation lg (int n) ch) \<le> (winProb ch * (1 - winProb ch) / \<epsilon>\<^sup>2) / real n"
  proof (rule eventually_sequentiallyI[of 1])
    fix n :: nat assume "1 \<le> n"
    then have "0 < int n" by simp
    from batch_chebyshev[OF this assms, of ch lg]
    show "prob (\<lambda>res. \<epsilon> \<le> \<bar>real_of_int (fst res) / real n - winProb ch\<bar>)
                (runSimulation lg (int n) ch) \<le> (winProb ch * (1 - winProb ch) / \<epsilon>\<^sup>2) / real n"
      by (simp add: mult.commute)
  qed
  show "(\<lambda>n. 0::real) \<longlonglongrightarrow> 0" by simp
  show "(\<lambda>n. (winProb ch * (1 - winProb ch) / \<epsilon>\<^sup>2) / real n) \<longlonglongrightarrow> 0"
    by (rule lim_const_over_n)
qed

text \<open>
  C1. When every call of \<open>getRandom\<close> is uniform on its range and independent of the
  earlier ones, a trial in which the player keeps the door is won with probability
  exactly 1/3 and a trial in which the player changes with probability exactly 2/3.
  The win ratio of a batch converges to these values in probability: for a batch of
  \<open>n\<close> trials the probability that \<open>winCount / n\<close> is at least \<open>\<epsilon>\<close> away from the value
  is at most \<open>2 / (9 n \<epsilon>\<^sup>2)\<close>, which tends to 0 as \<open>n\<close> grows.
\<close>

theorem win_probabilities_and_convergence:
  "prob fst (simulateSingleGame logger False) = 1 / 3 \<and>
   prob fst (simulateSingleGame logger True) = 2 / 3 \<and>
   (\<forall>\<epsilon>>0. \<forall>n>0.
      prob (\<lambda>res. \<epsilon> \<le> \<bar>real_of_int (fst res) / real_of_int n - 1 / 3\<bar>)
        (runSimulation logger n False) \<le> 2 / (9 * real_of_int n * \<epsilon>\<^sup>2) \<and>
      prob (\<lambda>res. \<epsilon> \<le> \<bar>real_of_int (fst res) / real_of_int n - 2 / 3\<bar>)
        (runSimulation logger n True) \<le> 2 / (9 * real_of_int n * \<epsilon>\<^sup>2)) \<and>
   (\<forall>\<epsilon>>0.
      (\<lambda>n. prob (\<lambda>res. \<epsilon> \<le> \<bar>real_of_int (fst res) / real n - 1 / 3\<bar>)
              (runSimulation logger (int n) False)) \<longlonglongrightarrow> 0 \<and>
      (\<lambda>n. prob (\<lambda>res. \<epsilon> \<le> \<bar>real_of_int (fst res) / real n - 2 / 3\<bar>)
              (runSimulation logger (int n) True)) \<longlonglongrightarrow> 0)"
proof (intro conjI allI impI)
  show "prob fst (simulateSingleGame logger False) = 1 / 3"
    using trial_expect[of "\<lambda>b. if b then 1 else 0" logger False] by (simp add: prob_def)
  show "prob fst (simulateSingleGame logger True) = 2 / 3"
    using trial_expect[of "\<lambda>b. if b then 1 else 0" logger True] by (simp add: prob_def)
next
  fix \<epsilon> :: real and n :: int
  assume "0 < \<epsilon>" "0 < n"
  from batch_chebyshev[OF this(2) this(1), of False logger]
  show "prob (\<lambda>res. \<epsilon> \<le> \<bar>real_of_int (fst res) / real_of_int n - 1 / 3\<bar>)
        (runSimulation logger n False) \<le> 2 / (9 * real_of_int n * \<epsilon>\<^sup>2)"
    by (simp add: winProb_def)
  from batch_chebyshev[OF \<open>0 < n\<close> \<open>0 < \<epsilon>\<close>, of True logger]
  show "prob (\<lambda>res. \<epsilon> \<le> \<bar>real_of_int (fst res) / real_of_int n - 2 / 3\<bar>)
        (runSimulation logger n True) \<le> 2 / (9 * real_of_int n * \<epsilon>\<^sup>2)"
    by (simp add: winProb_def)
next
  fix \<epsilon> :: real
  assume "0 < \<epsilon>"
  from batch_converges[OF this, of False logger]
  show "(\<lambda>n. prob (\<lambda>res. \<epsilon> \<le> \<bar>real_of_int (fst res) / real n - 1 / 3\<bar>)
              (runSimulation logger (int n) False)) \<longlonglongrightarrow> 0"
    by (simp add: winProb_def)
  from batch_converges[OF \<open>0 < \<epsilon>\<close>, of True logger]
  show "(\<lambda>n. prob (\<lambda>res. \<epsilon> \<le> \<bar>real_of_int (fst res) / real n - 2 / 3\<bar>)
              (runSimulation logger (int n) True)) \<longlonglongrightarrow> 0"
    by (simp add: winProb_def)
qed

theorem win_probabilities_and_convergence_witness:
  "(0::real) < 1 / 10 \<and> (0::int) < 1000 \<and>
   prob (\<lambda>res. 1 / 10 \<le> \<bar>real_of_int (fst res) / 1000 - 1 / 3\<bar>)
     (runSimulation \<lparr>logLevel = INFO\<rparr> 1000 False) \<le> 1 / 45 \<and>
   prob (\<lambda>res. 1 / 10 \<le> \<bar>real_of_int (fst res) / 1000 - 2 / 3\<bar>)
     (runSimulation \<lparr>logLevel = INFO\<rparr> 1000 True) \<le> 1 / 45 \<and>
   (\<lambda>n. prob (\<lambda>res. 1 / 10 \<le> \<bar>real_of_int (fst res) / real n - 1 / 3\<bar>)
           (runSimulation \<lparr>logLevel = INFO\<rparr> (int n) False)) \<longlonglongrightarrow> 0"
proof -
  have e: "(0::real) < 1 / 10" and n: "(0::int) < 1000" by simp_all
  from win_probabilities_and_convergence[of "\<lparr>logLevel = INFO\<rparr>"] e n
  have "prob (\<lambda>res. 1 / 10 \<le> \<bar>real_of_int (fst res) / real_of_int 1000 - 1 / 3\<bar>)
          (runSimulation \<lparr>logLevel = INFO\<rparr> 1000 False) \<le> 2 / (9 * real_of_int 1000 * (1 / 10)\<^sup>2)"
    and "prob (\<lambda>res. 1 / 10 \<le> \<bar>real_of_int (fst res) / real_of_int 1000 - 2 / 3\<bar>)
          (runSimulation \<lparr>logLevel = INFO\<rparr> 1000 True) \<le> 2 / (9 * real_of_int 1000 * (1 / 10)\<^sup>2)"
    and "(\<lambda>n. prob (\<lambda>res. 1 / 10 \<le> \<bar>real_of_int (fst res) / real n - 1 / 3\<bar>)
           (runSimulation \<lparr>logLevel = INFO\<rparr> (int n) False)) \<longlonglongrightarrow> 0"
    by blast+
  then show ?thesis by (simp add: power2_eq_square)
qed

end
